theory Spec2Isabelle
  imports Complex_Main "HOL-Library.Sublist" "HOL-Library.Multiset"
    "HOL-Library.Char_ord" "HOL-Library.List_Lexorder"
begin

section \<open>Time keys (StockChart: toTime)\<close>

text \<open>
  The chart component receives every time key as a string (\<open>date: string\<close> in OHLCVBar,
  OverlayPoint, MACDPoint and PredictionPoint). \<open>toTime\<close> turns a string of decimal digits
  into a number and passes every other string through, so a chart time is a number or a
  string. The regular expression \<^verbatim>\<open>/^\d+$/\<close> accepts exactly the non-empty strings
  of the characters 0 to 9.

  \<open>Number(dateStr)\<close> is modelled by the exact decimal value. A JavaScript number holds
  it exactly up to \<open>2 ^ 53\<close> (every Unix timestamp is far below); the theorems on
  numeric keys state that bound as a hypothesis (\<open>numericDate\<close>).
\<close>

datatype Time = TNum nat | TStr string

definition isDigit :: "char \<Rightarrow> bool" where
  "isDigit c = (48 \<le> (of_char c :: nat) \<and> (of_char c :: nat) \<le> 57)"

definition allDigits :: "string \<Rightarrow> bool" where
  "allDigits s = (s \<noteq> [] \<and> list_all isDigit s)"

definition digitsValue :: "string \<Rightarrow> nat" where
  "digitsValue s = foldl (\<lambda>acc c. 10 * acc + ((of_char c :: nat) - 48)) 0 s"

definition toTime :: "string \<Rightarrow> Time" where
  "toTime dateStr = (if allDigits dateStr then TNum (digitsValue dateStr) else TStr dateStr)"


text \<open>
  The order of time keys on the time scale of a chart: numbers by value, date strings as
  text, which for dates written yyyy-mm-dd is the order of the calendar. A payload holds
  keys of one kind only; the order places strings before numbers.
\<close>

instantiation Time :: linorder
begin

fun less_eq_Time :: "Time \<Rightarrow> Time \<Rightarrow> bool" where
  "less_eq_Time (TNum a) (TNum b) = (a \<le> b)"
| "less_eq_Time (TStr a) (TStr b) = (a \<le> b)"
| "less_eq_Time (TStr a) (TNum b) = True"
| "less_eq_Time (TNum a) (TStr b) = False"

definition less_Time :: "Time \<Rightarrow> Time \<Rightarrow> bool" where
  "less_Time x y = (x \<le> y \<and> \<not> y \<le> x)"

instance
proof
  fix x y z :: Time
  show "(x < y) = (x \<le> y \<and> \<not> y \<le> x)" by (simp add: less_Time_def)
  show "x \<le> x" by (cases x) simp_all
  show "x \<le> y \<Longrightarrow> y \<le> z \<Longrightarrow> x \<le> z" by (cases x; cases y; cases z) auto
  show "x \<le> y \<Longrightarrow> y \<le> x \<Longrightarrow> x = y" by (cases x; cases y) auto
  show "x \<le> y \<or> y \<le> x" by (cases x; cases y) auto
qed

end

section \<open>Payload types (lib/api.ts)\<close>

record OHLCVBar =
  bar_date :: string
  bar_open :: real
  bar_high :: real
  bar_low :: real
  bar_close :: real
  bar_volume :: real

record OverlayPoint =
  ov_date :: string
  ov_value :: "real option"

record MACDPoint =
  m_date :: string
  m_macd :: "real option"
  m_signal :: "real option"
  m_histogram :: "real option"

record PredictionPoint =
  pr_date :: string
  pr_value :: real

record ChartOverlays =
  sma_50 :: "OverlayPoint list"
  sma_200 :: "OverlayPoint list"
  sar :: "OverlayPoint list"
  macd :: "MACDPoint list"
  prediction :: "PredictionPoint list"
  prediction_direction :: string
  prediction_target :: "real option"

text \<open>A point handed to a line series: \<open>{ time, value }\<close>.\<close>

record LinePoint =
  lp_time :: Time
  lp_value :: real

section \<open>Series Normalizer (StockChart: filter and map of an overlay field)\<close>

text \<open>
  \<^verbatim>\<open>overlays.sma_50.filter((p) => p.value !== null)
       .map((p) => ({ time: toTime(p.date), value: p.value as number }))\<close>
  The two stages are kept apart as in the source: \<open>presentOnly\<close> is the filter,
  \<open>toLinePoint\<close> the body of the map.
\<close>

definition presentOnly :: "OverlayPoint list \<Rightarrow> OverlayPoint list" where
  "presentOnly ps = filter (\<lambda>p. ov_value p \<noteq> None) ps"

definition toLinePoint :: "OverlayPoint \<Rightarrow> LinePoint" where
  "toLinePoint p = \<lparr> lp_time = toTime (ov_date p), lp_value = the (ov_value p) \<rparr>"

definition normalizeSeries :: "OverlayPoint list \<Rightarrow> LinePoint list" where
  "normalizeSeries ps = map toLinePoint (presentOnly ps)"

text \<open>
  A line point read back as an overlay point, to normalize a normalized series again:
  a numeric time prints as its decimal digits, a string time is the string itself.
\<close>

definition digitChar :: "nat \<Rightarrow> char" where
  "digitChar k = char_of (48 + k)"

fun decimal :: "nat \<Rightarrow> string" where
  "decimal n = (if n < 10 then [digitChar n] else decimal (n div 10) @ [digitChar (n mod 10)])"

definition timeString :: "Time \<Rightarrow> string" where
  "timeString t = (case t of TNum n \<Rightarrow> decimal n | TStr s \<Rightarrow> s)"

definition asOverlayPoint :: "LinePoint \<Rightarrow> OverlayPoint" where
  "asOverlayPoint q = \<lparr> ov_date = timeString (lp_time q), ov_value = Some (lp_value q) \<rparr>"

section \<open>Prediction Stitcher (StockChart: predData)\<close>

text \<open>
  The comparator of the sort is \<^verbatim>\<open>(a.time as number) - (b.time as number)\<close>. The
  cast is erased at run time and the subtraction converts both operands to numbers. A
  number converts to itself. A time that \<open>toTime\<close> left as a string converts as
  JavaScript's StringToNumber says; that conversion is the parameter \<open>N\<close> of the model
  (\<open>None\<close> is NaN, the result for a calendar date such as 2024-01-05). A NaN result of
  the comparator is read by \<open>Array.prototype.sort\<close> as \<open>+0\<close>.
\<close>

definition timeAsNumber :: "(string \<Rightarrow> real option) \<Rightarrow> Time \<Rightarrow> real option" where
  "timeAsNumber N t = (case t of TNum n \<Rightarrow> Some (real n) | TStr s \<Rightarrow> N s)"

definition compareTime :: "(string \<Rightarrow> real option) \<Rightarrow> LinePoint \<Rightarrow> LinePoint \<Rightarrow> real" where
  "compareTime N a b =
     (case timeAsNumber N (lp_time a) of
        None \<Rightarrow> 0
      | Some x \<Rightarrow> (case timeAsNumber N (lp_time b) of None \<Rightarrow> 0 | Some y \<Rightarrow> x - y))"

text \<open>
  \<open>Array.prototype.sort\<close> is stable. For a consistent comparator its result is the one
  stable ordering, which insertion from the right computes. Where the comparator is not
  consistent (numeric keys mixed with keys that convert to NaN) ECMAScript leaves the
  order to the implementation, and the order \<open>sortBy\<close> gives need not be the engine's.
  About such an input the theorems state only what holds for every arrangement of the
  array; what depends on the order is stated for keys of one kind.
\<close>

fun insertBy :: "('a \<Rightarrow> 'a \<Rightarrow> real) \<Rightarrow> 'a \<Rightarrow> 'a list \<Rightarrow> 'a list" where
  "insertBy cmp x [] = [x]"
| "insertBy cmp x (y # ys) = (if cmp x y \<le> 0 then x # y # ys else y # insertBy cmp x ys)"

definition sortBy :: "('a \<Rightarrow> 'a \<Rightarrow> real) \<Rightarrow> 'a list \<Rightarrow> 'a list" where
  "sortBy cmp xs = foldr (insertBy cmp) xs []"

text \<open>
  \<^verbatim>\<open>predData.filter((p, i) => i === 0 || p.time !== predData[i - 1].time)\<close>:
  the element at index \<open>i\<close> is compared with its left neighbour in the sorted array.
  \<open>!==\<close> on two times is inequality of the values, a number never being equal to a string.
\<close>

definition keepAt :: "LinePoint list \<Rightarrow> nat \<Rightarrow> bool" where
  "keepAt xs i = (i = 0 \<or> lp_time (xs ! i) \<noteq> lp_time (xs ! (i - 1)))"

definition dedupe :: "LinePoint list \<Rightarrow> LinePoint list" where
  "dedupe xs = map (\<lambda>i. xs ! i) (filter (keepAt xs) [0..<length xs])"

definition predPoint :: "PredictionPoint \<Rightarrow> LinePoint" where
  "predPoint p = \<lparr> lp_time = toTime (pr_date p), lp_value = pr_value p \<rparr>"

definition anchorPoint :: "OHLCVBar \<Rightarrow> LinePoint" where
  "anchorPoint lastBar = \<lparr> lp_time = toTime (bar_date lastBar), lp_value = bar_close lastBar \<rparr>"

definition predData ::
  "(string \<Rightarrow> real option) \<Rightarrow> OHLCVBar \<Rightarrow> PredictionPoint list \<Rightarrow> LinePoint list" where
  "predData N lastBar preds =
     dedupe (sortBy (compareTime N)
       (anchorPoint lastBar #
        map predPoint (filter (\<lambda>p. pr_date p \<noteq> bar_date lastBar) preds)))"







section \<open>Pane Synchronizer (StockChart: the chart effect)\<close>

datatype OverlayKey = Sma50 | Sma200 | Sar | Prediction | Macd

record CandlePoint =
  c_time :: Time
  c_open :: real
  c_high :: real
  c_low :: real
  c_close :: real

record HistPoint =
  h_time :: Time
  h_value :: real
  h_color :: string

text \<open>A series attached to a chart; a line series carries its colour.\<close>

datatype Series =
    CandlestickSeries "CandlePoint list"
  | HistogramSeries "HistPoint list"
  | LineSeries string "LinePoint list"

text \<open>
  A chart as the effect leaves it. \<open>ch_visibleRange\<close> is \<open>None\<close> after
  \<open>fitContent()\<close> alone and \<open>Some (from, to)\<close> after
  \<open>setVisibleLogicalRange({ from, to })\<close>.
\<close>

record Chart =
  ch_series :: "Series list"
  ch_timeVisible :: bool
  ch_height :: nat
  ch_visibleRange :: "(nat \<times> nat) option"

definition isIntraday :: "OHLCVBar list \<Rightarrow> bool" where
  "isIntraday data = allDigits (case data of [] \<Rightarrow> [] | b # bs \<Rightarrow> bar_date b)"

definition candleData :: "OHLCVBar list \<Rightarrow> CandlePoint list" where
  "candleData data =
     map (\<lambda>b. \<lparr> c_time = toTime (bar_date b), c_open = bar_open b, c_high = bar_high b,
                c_low = bar_low b, c_close = bar_close b \<rparr>) data"

definition volumeData :: "OHLCVBar list \<Rightarrow> HistPoint list" where
  "volumeData data =
     map (\<lambda>b. \<lparr> h_time = toTime (bar_date b), h_value = bar_volume b,
                h_color = (if bar_close b \<ge> bar_open b then ''#22c55e40'' else ''#ef444440'') \<rparr>) data"

text \<open>
  The overlay block: each line is gated by its toggle and by the raw list being
  non-empty; SAR also by its filtered list being non-empty. The prediction line reads
  \<open>data[data.length - 1]\<close>; the effect reaches this block with \<open>data\<close> non-empty only.
\<close>

definition overlaySeries ::
  "(string \<Rightarrow> real option) \<Rightarrow> OHLCVBar list \<Rightarrow> ChartOverlays option \<Rightarrow> (OverlayKey \<Rightarrow> bool)
   \<Rightarrow> Series list" where
  "overlaySeries N data overlays active =
     (case overlays of
        None \<Rightarrow> []
      | Some ov \<Rightarrow>
          (if active Sma50 \<and> sma_50 ov \<noteq> []
           then [LineSeries ''#3b82f6'' (normalizeSeries (sma_50 ov))] else []) @
          (if active Sma200 \<and> sma_200 ov \<noteq> []
           then [LineSeries ''#f97316'' (normalizeSeries (sma_200 ov))] else []) @
          (if active Sar \<and> sar ov \<noteq> [] \<and> presentOnly (sar ov) \<noteq> []
           then [LineSeries ''#a855f7'' (normalizeSeries (sar ov))] else []) @
          (if active Prediction \<and> prediction ov \<noteq> []
           then [LineSeries ''#06b6d4'' (predData N (last data) (prediction ov))] else []))"

text \<open>
  \<^verbatim>\<open>const visibleBars = Math.min(120, totalBars);
  if (totalBars > visibleBars) setVisibleLogicalRange({ from: totalBars - visibleBars, to: totalBars })\<close>
  The same lines set the window of the MACD chart from \<open>macdTotal\<close>.
\<close>

definition lastBarsRange :: "nat \<Rightarrow> (nat \<times> nat) option" where
  "lastBarsRange totalBars =
     (let visibleBars = min 120 totalBars
      in if totalBars > visibleBars then Some (totalBars - visibleBars, totalBars) else None)"

definition priceChart ::
  "(string \<Rightarrow> real option) \<Rightarrow> OHLCVBar list \<Rightarrow> ChartOverlays option \<Rightarrow> (OverlayKey \<Rightarrow> bool)
   \<Rightarrow> Chart" where
  "priceChart N data overlays active =
     \<lparr> ch_series = CandlestickSeries (candleData data) # HistogramSeries (volumeData data) #
                     overlaySeries N data overlays active,
       ch_timeVisible = isIntraday data,
       ch_height = 420,
       ch_visibleRange = lastBarsRange (length (candleData data)) \<rparr>"

definition macdLine :: "MACDPoint list \<Rightarrow> LinePoint list" where
  "macdLine ms =
     map (\<lambda>p. \<lparr> lp_time = toTime (m_date p), lp_value = the (m_macd p) \<rparr>)
       (filter (\<lambda>p. m_macd p \<noteq> None) ms)"

definition signalLine :: "MACDPoint list \<Rightarrow> LinePoint list" where
  "signalLine ms =
     map (\<lambda>p. \<lparr> lp_time = toTime (m_date p), lp_value = the (m_signal p) \<rparr>)
       (filter (\<lambda>p. m_signal p \<noteq> None) ms)"

definition histogramData :: "MACDPoint list \<Rightarrow> HistPoint list" where
  "histogramData ms =
     map (\<lambda>p. \<lparr> h_time = toTime (m_date p), h_value = the (m_histogram p),
                h_color = (if the (m_histogram p) \<ge> 0 then ''#22c55e80'' else ''#ef444480'') \<rparr>)
       (filter (\<lambda>p. m_histogram p \<noteq> None) ms)"

definition macdChart :: "OHLCVBar list \<Rightarrow> ChartOverlays \<Rightarrow> Chart" where
  "macdChart data ov =
     \<lparr> ch_series = [LineSeries ''#3b82f6'' (macdLine (macd ov)),
                    LineSeries ''#f97316'' (signalLine (macd ov)),
                    HistogramSeries (histogramData (macd ov))],
       ch_timeVisible = isIntraday data,
       ch_height = 150,
       ch_visibleRange = lastBarsRange (length (filter (\<lambda>p. m_macd p \<noteq> None) (macd ov))) \<rparr>"

text \<open>
  The two chart refs, and whether the last run of the effect returned its cleanup
  function (it returns none when it leaves at the first line).
\<close>

record ChartRefs =
  priceChartRef :: "Chart option"
  macdChartRef :: "Chart option"
  cleanupSet :: bool

definition initialRefs :: ChartRefs where
  "initialRefs = \<lparr> priceChartRef = None, macdChartRef = None, cleanupSet = False \<rparr>"

definition chartCleanup :: "ChartRefs \<Rightarrow> ChartRefs" where
  "chartCleanup refs = \<lparr> priceChartRef = None, macdChartRef = None, cleanupSet = False \<rparr>"

text \<open>
  The JSX renders the MACD container under \<open>active.macd && overlays?.macd?.length\<close>;
  \<open>macdContainerRef.current\<close> is set exactly when that element is rendered.
\<close>

definition macdContainerShown :: "ChartOverlays option \<Rightarrow> (OverlayKey \<Rightarrow> bool) \<Rightarrow> bool" where
  "macdContainerShown overlays active =
     (active Macd \<and> (case overlays of None \<Rightarrow> False | Some ov \<Rightarrow> macd ov \<noteq> []))"

text \<open>
  The body of the effect. \<open>priceContainer\<close> and \<open>macdContainer\<close> say whether the two
  container refs are set. After the guard both old charts are removed, the price chart
  is built, and the MACD chart is built under its own condition.
\<close>

definition chartEffect ::
  "(string \<Rightarrow> real option) \<Rightarrow> bool \<Rightarrow> bool \<Rightarrow> OHLCVBar list \<Rightarrow> ChartOverlays option
   \<Rightarrow> (OverlayKey \<Rightarrow> bool) \<Rightarrow> ChartRefs \<Rightarrow> ChartRefs" where
  "chartEffect N priceContainer macdContainer data overlays active refs =
     (if \<not> priceContainer \<or> data = [] then refs \<lparr> cleanupSet := False \<rparr>
      else \<lparr> priceChartRef = Some (priceChart N data overlays active),
             macdChartRef =
               (case overlays of
                  None \<Rightarrow> None
                | Some ov \<Rightarrow>
                    if active Macd \<and> macd ov \<noteq> [] \<and> macdContainer
                    then Some (macdChart data ov) else None),
             cleanupSet = True \<rparr>)"

text \<open>
  One commit of the component after a change of \<open>data\<close>, \<open>ticker\<close>, \<open>overlays\<close> or
  \<open>active\<close>: the cleanup of the previous effect runs if there is one, then the effect.
  The price container is always rendered.
\<close>

definition renderChart ::
  "(string \<Rightarrow> real option) \<Rightarrow> OHLCVBar list \<Rightarrow> ChartOverlays option \<Rightarrow> (OverlayKey \<Rightarrow> bool)
   \<Rightarrow> ChartRefs \<Rightarrow> ChartRefs" where
  "renderChart N data overlays active refs =
     chartEffect N True (macdContainerShown overlays active) data overlays active
       (if cleanupSet refs then chartCleanup refs else refs)"

text \<open>Refs as the component can hold them: charts exist only while a cleanup is pending.\<close>

definition refsOk :: "ChartRefs \<Rightarrow> bool" where
  "refsOk refs = (cleanupSet refs \<or> (priceChartRef refs = None \<and> macdChartRef refs = None))"









text \<open>The toggle of the visibility store: \<open>{ ...prev, [key]: !prev[key] }\<close>.\<close>

definition toggle :: "OverlayKey \<Rightarrow> (OverlayKey \<Rightarrow> bool) \<Rightarrow> (OverlayKey \<Rightarrow> bool)" where
  "toggle key prev = prev (key := \<not> prev key)"

subsection \<open>Prediction banner (StockChart: JSX)\<close>

text \<open>
  \<^verbatim>\<open>{overlays && active.prediction && overlays.prediction_target && ( ...
     (overlays.prediction_target - data[data.length - 1].close) / data[data.length - 1].close ... )}\<close>
  A target of \<open>null\<close> or \<open>0\<close> is falsy. With \<open>data\<close> empty, \<open>data[data.length - 1]\<close> is
  \<open>undefined\<close> and reading \<open>.close\<close> throws a TypeError. The result holds the two numbers
  the percentage is computed from.
\<close>

datatype JsError = TypeError

definition predictionBanner ::
  "OHLCVBar list \<Rightarrow> ChartOverlays option \<Rightarrow> (OverlayKey \<Rightarrow> bool) \<Rightarrow> JsError + (real \<times> real) option" where
  "predictionBanner data overlays active =
     (case overlays of
        None \<Rightarrow> Inr None
      | Some ov \<Rightarrow>
          (case prediction_target ov of
             None \<Rightarrow> Inr None
           | Some target \<Rightarrow>
               if active Prediction \<and> target \<noteq> 0
               then (if data = [] then Inl TypeError
                     else Inr (Some (target, bar_close (last data))))
               else Inr None))"

subsection \<open>Inputs for the examples\<close>

definition flatBar :: "string \<Rightarrow> real \<Rightarrow> OHLCVBar" where
  "flatBar d c =
     \<lparr> bar_date = d, bar_open = c, bar_high = c, bar_low = c, bar_close = c, bar_volume = 0 \<rparr>"

definition noOverlays :: ChartOverlays where
  "noOverlays =
     \<lparr> sma_50 = [], sma_200 = [], sar = [], macd = [], prediction = [],
       prediction_direction = ''flat'', prediction_target = None \<rparr>"



section \<open>Refresh Scheduler (the dashboard page: Home)\<close>

text \<open>
  The payload of a fetch. Only the fields the chart reads are kept; the page passes the
  others to display components.
\<close>

record StockAnalysis =
  sa_ticker :: string
  sa_ohlcv :: "OHLCVBar list"
  sa_overlays :: "ChartOverlays option"
  sa_analyzed_at :: string

record Params =
  p_ticker :: string
  p_period :: string
  p_interval :: string

text \<open>
  A call of \<open>analyzeStock\<close> that has not settled yet: the function awaiting it
  (\<open>handleSearch\<close> or \<open>silentRefresh\<close>) and the arguments of the call.
\<close>

datatype FetchKind = SearchFetch | RefreshFetch

record Fetch =
  f_kind :: FetchKind
  f_params :: Params

text \<open>
  The state of the page: its \<open>useState\<close> cells and refs under the source's names
  (\<open>refreshTimer\<close> says whether an interval is armed), the calls in flight, and the
  log \<open>issued\<close> of every call of \<open>analyzeStock\<close> made so far. A signed-in user is
  assumed throughout. \<open>lastRefreshed\<close> holds the clock reading of \<open>new Date()\<close>.
\<close>

record Home =
  analysis :: "StockAnalysis option"
  isLoading :: bool
  error :: "string option"
  currentTicker :: string
  activePeriod :: string
  activeInterval :: string
  autoRefresh :: bool
  lastRefreshed :: "nat option"
  isRefreshing :: bool
  refreshTimer :: bool
  latestParamsRef :: Params
  inFlight :: "Fetch list"
  issued :: "Fetch list"

definition initialHome :: Home where
  "initialHome =
     \<lparr> analysis = None, isLoading = False, error = None, currentTicker = [],
       activePeriod = ''2y'', activeInterval = ''1d'', autoRefresh = True,
       lastRefreshed = None, isRefreshing = False, refreshTimer = False,
       latestParamsRef = \<lparr> p_ticker = [], p_period = ''2y'', p_interval = ''1d'' \<rparr>,
       inFlight = [], issued = [] \<rparr>"

text \<open>
  The timer effect, run after every change of \<open>autoRefresh\<close> or \<open>currentTicker\<close>: the
  old interval is cleared and a new one is armed if \<open>autoRefresh && currentTicker\<close>.
\<close>

definition timerEffect :: "Home \<Rightarrow> Home" where
  "timerEffect s = s \<lparr> refreshTimer := (autoRefresh s \<and> currentTicker s \<noteq> []) \<rparr>"

text \<open>
  \<open>silentRefresh\<close> up to its \<open>await\<close>: it returns at once without a ticker, and
  otherwise sets \<open>isRefreshing\<close> and calls \<open>analyzeStock\<close> with the params of the ref.
\<close>

definition silentRefresh :: "Home \<Rightarrow> Home" where
  "silentRefresh s =
     (let ps = latestParamsRef s
      in if p_ticker ps = [] then s
         else s \<lparr> isRefreshing := True,
                  inFlight := inFlight s @ [\<lparr> f_kind = RefreshFetch, f_params = ps \<rparr>],
                  issued := issued s @ [\<lparr> f_kind = RefreshFetch, f_params = ps \<rparr>] \<rparr>)"

text \<open>\<open>handleSearch\<close> up to its \<open>await\<close>, followed by the timer effect.\<close>

definition handleSearch :: "string \<Rightarrow> string \<Rightarrow> string \<Rightarrow> Home \<Rightarrow> Home" where
  "handleSearch ticker period interval s =
     (let ps = \<lparr> p_ticker = ticker, p_period = period, p_interval = interval \<rparr>
      in timerEffect
           (s \<lparr> isLoading := True, error := None, currentTicker := ticker,
                activePeriod := period, activeInterval := interval,
                latestParamsRef := ps,
                inFlight := inFlight s @ [\<lparr> f_kind = SearchFetch, f_params = ps \<rparr>],
                issued := issued s @ [\<lparr> f_kind = SearchFetch, f_params = ps \<rparr>] \<rparr>))"

text \<open>
  What runs when a call settles: the rest of the \<open>try\<close> block or the \<open>catch\<close> block,
  then \<open>finally\<close>. A rejected call throws an \<open>Error\<close> with a message or some other
  value: \<open>err instanceof Error ? err.message : "Something went wrong"\<close>.
\<close>

datatype Thrown = ErrorObject string | OtherValue

fun errorMessage :: "Thrown \<Rightarrow> string" where
  "errorMessage (ErrorObject m) = m"
| "errorMessage OtherValue = ''Something went wrong''"

datatype Outcome = Resolved StockAnalysis | Rejected Thrown

definition settle :: "Fetch \<Rightarrow> Outcome \<Rightarrow> nat \<Rightarrow> Home \<Rightarrow> Home" where
  "settle f outcome now s =
     (case f_kind f of
        RefreshFetch \<Rightarrow>
          (case outcome of
             Resolved d \<Rightarrow> s \<lparr> analysis := Some d, lastRefreshed := Some now, isRefreshing := False \<rparr>
           | Rejected err \<Rightarrow> s \<lparr> isRefreshing := False \<rparr>)
      | SearchFetch \<Rightarrow>
          (case outcome of
             Resolved d \<Rightarrow> s \<lparr> analysis := Some d, lastRefreshed := Some now, isLoading := False \<rparr>
           | Rejected err \<Rightarrow>
               s \<lparr> error := Some (errorMessage err), analysis := None, isLoading := False \<rparr>))"

text \<open>
  The events of the page. The refresh button and the auto-refresh toggle are rendered
  only with a ticker, and the refresh button is disabled while \<open>isRefreshing\<close>. A tick
  happens only while an interval is armed. \<open>Settle i outcome now\<close> settles the call at
  position \<open>i\<close> of \<open>inFlight\<close>; calls may settle in any order.
\<close>

datatype Event =
    Search string string string
  | ClickRefresh
  | ToggleAutoRefresh
  | TimerTick
  | Settle nat Outcome nat

definition removeAt :: "nat \<Rightarrow> 'a list \<Rightarrow> 'a list" where
  "removeAt i xs = take i xs @ drop (Suc i) xs"

fun step :: "Event \<Rightarrow> Home \<Rightarrow> Home" where
  "step (Search ticker period interval) s = handleSearch ticker period interval s"
| "step ClickRefresh s =
     (if currentTicker s \<noteq> [] \<and> \<not> isRefreshing s then silentRefresh s else s)"
| "step ToggleAutoRefresh s =
     (if currentTicker s \<noteq> [] then timerEffect (s \<lparr> autoRefresh := \<not> autoRefresh s \<rparr>) else s)"
| "step TimerTick s = (if refreshTimer s then silentRefresh s else s)"
| "step (Settle i outcome now) s =
     (if i < length (inFlight s)
      then settle (inFlight s ! i) outcome now (s \<lparr> inFlight := removeAt i (inFlight s) \<rparr>)
      else s)"

fun run :: "Event list \<Rightarrow> Home \<Rightarrow> Home" where
  "run [] s = s"
| "run (e # es) s = run es (step e s)"

text \<open>The refresh calls in flight for a ticker, and the tickers a list of events searches.\<close>

definition refreshesInFlight :: "string \<Rightarrow> Home \<Rightarrow> nat" where
  "refreshesInFlight ticker s =
     length (filter (\<lambda>f. f_kind f = RefreshFetch \<and> p_ticker (f_params f) = ticker) (inFlight s))"

fun searchedTickers :: "Event list \<Rightarrow> string list" where
  "searchedTickers [] = []"
| "searchedTickers (Search ticker period interval # es) = ticker # searchedTickers es"
| "searchedTickers (e # es) = searchedTickers es"

text \<open>
  Two invariants of the page. \<open>tracked T\<close>: the ref and the state name the same ticker,
  which is empty or one of the searched tickers \<open>T\<close>; the interval is armed exactly under
  \<open>autoRefresh && currentTicker\<close>; every refresh call made so far was for a searched
  ticker. \<open>flagBacked\<close>: while \<open>isRefreshing\<close> is set, a refresh call is in flight.
\<close>

definition tracked :: "string set \<Rightarrow> Home \<Rightarrow> bool" where
  "tracked T s =
     (p_ticker (latestParamsRef s) = currentTicker s
      \<and> (currentTicker s = [] \<or> currentTicker s \<in> T)
      \<and> refreshTimer s = (autoRefresh s \<and> currentTicker s \<noteq> [])
      \<and> (\<forall>f\<in>set (issued s). f_kind f = RefreshFetch \<longrightarrow>
            p_ticker (f_params f) \<noteq> [] \<and> p_ticker (f_params f) \<in> T))"

definition flagBacked :: "Home \<Rightarrow> bool" where
  "flagBacked s = (isRefreshing s \<longrightarrow> (\<exists>f\<in>set (inFlight s). f_kind f = RefreshFetch))"

subsection \<open>A payload for the examples\<close>

definition analysisOf :: "string \<Rightarrow> OHLCVBar list \<Rightarrow> StockAnalysis" where
  "analysisOf ticker bars =
     \<lparr> sa_ticker = ticker, sa_ohlcv = bars, sa_overlays = None, sa_analyzed_at = ''2024-01-02T00:00:00'' \<rparr>"

section \<open>Properties of the Series Normalizer\<close>

lemma digitChar_ok: "k < 10 \<Longrightarrow> isDigit (digitChar k) \<and> (of_char (digitChar k) :: nat) - 48 = k"
  by (simp add: isDigit_def digitChar_def)

lemma digitsValue_snoc: "digitsValue (s @ [c]) = 10 * digitsValue s + ((of_char c :: nat) - 48)"
  by (simp add: digitsValue_def)

lemma decimal_digits: "allDigits (decimal n) \<and> digitsValue (decimal n) = n"
proof (induction n rule: decimal.induct)
  case (1 n)
  show ?case
  proof (cases "n < 10")
    case True
    then show ?thesis using digitChar_ok [of n] by (simp add: allDigits_def digitsValue_def)
  next
    case False
    have ih: "allDigits (decimal (n div 10)) \<and> digitsValue (decimal (n div 10)) = n div 10"
      using 1 False by simp
    have d: "isDigit (digitChar (n mod 10)) \<and> (of_char (digitChar (n mod 10)) :: nat) - 48 = n mod 10"
      using digitChar_ok [of "n mod 10"] by simp
    have eq: "decimal n = decimal (n div 10) @ [digitChar (n mod 10)]"
      using False by (subst decimal.simps) simp
    show ?thesis
      unfolding eq using ih d by (simp add: allDigits_def digitsValue_snoc del: decimal.simps)
  qed
qed

lemma toTime_timeString: "toTime (timeString (toTime d)) = toTime d"
proof (cases "allDigits d")
  case True
  then show ?thesis using decimal_digits [of "digitsValue d"]
    by (simp add: toTime_def timeString_def del: decimal.simps)
next
  case False
  then show ?thesis by (simp add: toTime_def timeString_def)
qed

lemma toLinePoint_asOverlayPoint:
  "ov_value p \<noteq> None \<Longrightarrow> toLinePoint (asOverlayPoint (toLinePoint p)) = toLinePoint p"
  by (simp add: toLinePoint_def asOverlayPoint_def toTime_timeString)

lemma presentOnly_idem: "presentOnly (presentOnly ps) = presentOnly ps"
  by (simp add: presentOnly_def)

lemma count_presentOnly:
  "count_list (presentOnly ps) p = (if ov_value p \<noteq> None then count_list ps p else 0)"
  by (induction ps) (auto simp: presentOnly_def)

text \<open>
  C5. The normalizer returns the points of its input that have a value, each converted
  by \<open>toLinePoint\<close>, in the order of the input: the kept points are a subsequence of the
  input, every point with a value is kept as often as it occurs, and a point without one
  never. Normalizing is idempotent: a list that went through the filter passes it
  unchanged, and a normalized series read back as overlay points normalizes to itself.
\<close>

theorem normalizeSeries_present_in_order:
  "normalizeSeries ps = map toLinePoint (presentOnly ps)
   \<and> subseq (presentOnly ps) ps
   \<and> (\<forall>p. count_list (presentOnly ps) p = (if ov_value p = None then 0 else count_list ps p))
   \<and> (\<forall>i < length (presentOnly ps).
         lp_time (normalizeSeries ps ! i) = toTime (ov_date (presentOnly ps ! i))
         \<and> ov_value (presentOnly ps ! i) = Some (lp_value (normalizeSeries ps ! i)))
   \<and> normalizeSeries (presentOnly ps) = normalizeSeries ps
   \<and> normalizeSeries (map asOverlayPoint (normalizeSeries ps)) = normalizeSeries ps"
proof -
  have a: "normalizeSeries ps = map toLinePoint (presentOnly ps)"
    by (simp add: normalizeSeries_def)
  have b: "subseq (presentOnly ps) ps"
    by (simp add: presentOnly_def)
  have c: "\<forall>p. count_list (presentOnly ps) p = (if ov_value p = None then 0 else count_list ps p)"
    by (simp add: count_presentOnly)
  have pres: "\<forall>p\<in>set (presentOnly ps). ov_value p \<noteq> None"
    by (simp add: presentOnly_def)
  have d: "\<forall>i < length (presentOnly ps).
         lp_time (normalizeSeries ps ! i) = toTime (ov_date (presentOnly ps ! i))
         \<and> ov_value (presentOnly ps ! i) = Some (lp_value (normalizeSeries ps ! i))"
  proof (intro allI impI)
    fix i assume i: "i < length (presentOnly ps)"
    then have "ov_value (presentOnly ps ! i) \<noteq> None" using pres nth_mem by blast
    then show "lp_time (normalizeSeries ps ! i) = toTime (ov_date (presentOnly ps ! i))
         \<and> ov_value (presentOnly ps ! i) = Some (lp_value (normalizeSeries ps ! i))"
      using i by (auto simp: a toLinePoint_def)
  qed
  have e: "normalizeSeries (presentOnly ps) = normalizeSeries ps"
    by (simp add: normalizeSeries_def presentOnly_idem)
  have reread: "presentOnly (map asOverlayPoint qs) = map asOverlayPoint qs" for qs
    by (induction qs) (simp_all add: presentOnly_def asOverlayPoint_def)
  have f: "normalizeSeries (map asOverlayPoint (normalizeSeries ps)) = normalizeSeries ps"
    unfolding normalizeSeries_def reread using pres
    by (simp add: toLinePoint_asOverlayPoint)
  show ?thesis using a b c d e f by blast
qed

theorem normalizeSeries_present_in_order_witness:
  "normalizeSeries
     [\<lparr> ov_date = ''2024-01-02'', ov_value = None \<rparr>,
      \<lparr> ov_date = ''2024-01-03'', ov_value = Some 5 \<rparr>,
      \<lparr> ov_date = ''1700000000'', ov_value = Some 7 \<rparr>]
   = [\<lparr> lp_time = TStr ''2024-01-03'', lp_value = 5 \<rparr>,
      \<lparr> lp_time = TNum 1700000000, lp_value = 7 \<rparr>]"
  using normalizeSeries_present_in_order
          [of "[\<lparr> ov_date = ''2024-01-02'', ov_value = None \<rparr>,
                \<lparr> ov_date = ''2024-01-03'', ov_value = Some 5 \<rparr>,
                \<lparr> ov_date = ''1700000000'', ov_value = Some 7 \<rparr>]"]
  by (simp add: presentOnly_def toLinePoint_def toTime_def allDigits_def isDigit_def digitsValue_def)

section \<open>Properties of the Prediction Stitcher\<close>























lemma insert_eq_minus: "insert x A = insert x B \<Longrightarrow> x \<notin> A \<Longrightarrow> A = B - {x}"
  by auto

















section \<open>Properties of the Pane Synchronizer\<close>

lemma refsOk_initial: "refsOk initialRefs"
  by (simp add: refsOk_def initialRefs_def)

lemma refsOk_renderChart: "refsOk refs \<Longrightarrow> refsOk (renderChart N data overlays active refs)"
  by (auto simp: refsOk_def renderChart_def chartEffect_def chartCleanup_def)

lemma renderChart_skipped:
  "refsOk refs \<Longrightarrow> data = [] \<Longrightarrow>
   renderChart N data overlays active refs = \<lparr> priceChartRef = None, macdChartRef = None, cleanupSet = False \<rparr>"
  by (auto simp: refsOk_def renderChart_def chartEffect_def chartCleanup_def)

lemma renderChart_price:
  "data \<noteq> [] \<Longrightarrow>
   priceChartRef (renderChart N data overlays active refs) = Some (priceChart N data overlays active)"
  by (simp add: renderChart_def chartEffect_def)

lemma renderChart_macd:
  "data \<noteq> [] \<Longrightarrow>
   macdChartRef (renderChart N data overlays active refs) =
     (case overlays of None \<Rightarrow> None
      | Some ov \<Rightarrow> if active Macd \<and> macd ov \<noteq> [] then Some (macdChart data ov) else None)"
  by (simp add: renderChart_def chartEffect_def macdContainerShown_def split: option.splits)

text \<open>
  C8 (as amended). In a render with all five overlay keys off, no oscillator chart is
  created. If the bar list is not empty, the price chart holds exactly two series: the
  candlesticks and the volume histogram. On an empty bar list the effect leaves at its
  guard and there is no price chart.
\<close>

theorem all_overlays_off_two_series:
  assumes off: "\<forall>key. \<not> active key" and ok: "refsOk refs"
  shows "macdChartRef (renderChart N data overlays active refs) = None
    \<and> (data \<noteq> [] \<longrightarrow>
         (\<exists>ch. priceChartRef (renderChart N data overlays active refs) = Some ch
             \<and> ch_series ch = [CandlestickSeries (candleData data), HistogramSeries (volumeData data)]))
    \<and> (data = [] \<longrightarrow> priceChartRef (renderChart N data overlays active refs) = None)"
proof (cases "data = []")
  case True
  then show ?thesis using renderChart_skipped [OF ok True] by simp
next
  case False
  have ov: "overlaySeries N data overlays active = []"
    using off by (simp add: overlaySeries_def split: option.splits)
  have m: "macdChartRef (renderChart N data overlays active refs) = None"
    using off renderChart_macd [OF False] by (simp split: option.splits)
  show ?thesis using False m ov renderChart_price [OF False]
    by (simp add: priceChart_def)
qed

text \<open>
  C7 (as amended). After a render the oscillator chart exists if and only if the bar list
  is not empty, the MACD overlay is toggled on, and the payload has overlays whose raw
  MACD list is not empty; it is then the chart built from that list. The values of the
  fast line are not consulted.
\<close>

theorem macd_pane_created_iff:
  assumes ok: "refsOk refs"
  shows "(macdChartRef (renderChart N data overlays active refs) \<noteq> None)
          = (data \<noteq> [] \<and> active Macd \<and> (\<exists>ov. overlays = Some ov \<and> macd ov \<noteq> []))
    \<and> (\<forall>ov. data \<noteq> [] \<and> active Macd \<and> overlays = Some ov \<and> macd ov \<noteq> []
          \<longrightarrow> macdChartRef (renderChart N data overlays active refs) = Some (macdChart data ov))"
proof (cases "data = []")
  case True
  then show ?thesis using renderChart_skipped [OF ok True] by simp
next
  case False
  then show ?thesis using renderChart_macd [OF False]
    by (auto split: option.splits)
qed


text \<open>Instances of the two theorems, and the render that refutes C7 as stated.\<close>

theorem all_overlays_off_two_series_witness:
  "(\<forall>key. \<not> (\<lambda>k. False) key) \<and> refsOk initialRefs
   \<and> map_option ch_series
        (priceChartRef (renderChart (\<lambda>s. None) [flatBar ''2024-01-02'' 100]
           (Some (noOverlays \<lparr> sma_50 := [\<lparr> ov_date = ''2024-01-02'', ov_value = Some 99 \<rparr>],
                                macd := [\<lparr> m_date = ''2024-01-02'', m_macd = Some 1,
                                          m_signal = Some 1, m_histogram = Some 0 \<rparr>] \<rparr>))
           (\<lambda>k. False) initialRefs))
     = Some [CandlestickSeries [\<lparr> c_time = TStr ''2024-01-02'', c_open = 100, c_high = 100,
                                  c_low = 100, c_close = 100 \<rparr>],
             HistogramSeries [\<lparr> h_time = TStr ''2024-01-02'', h_value = 0, h_color = ''#22c55e40'' \<rparr>]]
   \<and> macdChartRef (renderChart (\<lambda>s. None) [flatBar ''2024-01-02'' 100]
           (Some (noOverlays \<lparr> sma_50 := [\<lparr> ov_date = ''2024-01-02'', ov_value = Some 99 \<rparr>],
                                macd := [\<lparr> m_date = ''2024-01-02'', m_macd = Some 1,
                                          m_signal = Some 1, m_histogram = Some 0 \<rparr>] \<rparr>))
           (\<lambda>k. False) initialRefs) = None"
proof -
  have h1: "\<forall>key :: OverlayKey. \<not> (\<lambda>k. False) key" by simp
  have h2: "refsOk initialRefs" by (simp add: refsOk_def initialRefs_def)
  have t: "toTime ''2024-01-02'' = TStr ''2024-01-02''"
    by (simp add: toTime_def allDigits_def isDigit_def)
  show ?thesis
    using all_overlays_off_two_series [OF h1 h2, of "\<lambda>s. None" "[flatBar ''2024-01-02'' 100]"] h2
    by (auto simp: candleData_def volumeData_def flatBar_def t)
qed

text \<open>
  All five keys off and an empty bar list: the render leaves no price chart, so there is
  no price pane with two series.
\<close>

theorem all_overlays_off_empty_bars_counterexample:
  "priceChartRef (renderChart (\<lambda>s. None) [] (Some noOverlays) (\<lambda>k. False) initialRefs) = None"
  by (simp add: renderChart_def chartEffect_def initialRefs_def)

theorem macd_pane_created_iff_witness:
  "refsOk initialRefs
   \<and> macdChartRef (renderChart (\<lambda>s. None) [flatBar ''2024-01-02'' 100]
        (Some (noOverlays \<lparr> macd := [\<lparr> m_date = ''2024-01-02'', m_macd = Some 1,
                                       m_signal = None, m_histogram = None \<rparr>] \<rparr>))
        (\<lambda>k. True) initialRefs)
     = Some \<lparr> ch_series = [LineSeries ''#3b82f6'' [\<lparr> lp_time = TStr ''2024-01-02'', lp_value = 1 \<rparr>],
                            LineSeries ''#f97316'' [], HistogramSeries []],
              ch_timeVisible = False, ch_height = 150, ch_visibleRange = None \<rparr>"
proof -
  have h: "refsOk initialRefs" by (simp add: refsOk_def initialRefs_def)
  have t: "toTime ''2024-01-02'' = TStr ''2024-01-02''" "\<not> allDigits ''2024-01-02''"
    by (simp_all add: toTime_def allDigits_def isDigit_def)
  show ?thesis
    using macd_pane_created_iff [OF h, of "\<lambda>s. None" "[flatBar ''2024-01-02'' 100]"
        "Some (noOverlays \<lparr> macd := [\<lparr> m_date = ''2024-01-02'', m_macd = Some 1,
                                       m_signal = None, m_histogram = None \<rparr>] \<rparr>)" "\<lambda>k. True"] h
    by (simp add: macdChart_def macdLine_def signalLine_def histogramData_def isIntraday_def
          lastBarsRange_def flatBar_def noOverlays_def t)
qed

text \<open>
  A MACD list whose only point has no fast-line value: the toggle is on and the raw list
  is not empty, so the oscillator chart is created, with an empty fast line.
\<close>

theorem macd_pane_empty_fast_line_counterexample:
  "macdChartRef (renderChart (\<lambda>s. None) [flatBar ''2024-01-02'' 100]
        (Some (noOverlays \<lparr> macd := [\<lparr> m_date = ''2024-01-02'', m_macd = None,
                                       m_signal = None, m_histogram = None \<rparr>] \<rparr>))
        (\<lambda>k. True) initialRefs)
     = Some \<lparr> ch_series = [LineSeries ''#3b82f6'' [], LineSeries ''#f97316'' [], HistogramSeries []],
              ch_timeVisible = False, ch_height = 150, ch_visibleRange = None \<rparr>
   \<and> macdLine [\<lparr> m_date = ''2024-01-02'', m_macd = None, m_signal = None, m_histogram = None \<rparr>] = []"
proof -
  have t: "\<not> allDigits ''2024-01-02''"
    by (simp add: allDigits_def isDigit_def)
  show ?thesis
    by (simp add: renderChart_def chartEffect_def macdContainerShown_def initialRefs_def
          macdChart_def macdLine_def signalLine_def histogramData_def isIntraday_def
          lastBarsRange_def flatBar_def noOverlays_def t)
qed





























text \<open>
  C10. With an empty bar list, the prediction overlay on and a non-zero target, the banner
  reads \<open>.close\<close> of \<open>data[-1]\<close>, which is \<open>undefined\<close>: the render throws. The effect, in
  contrast, leaves at its guard and never reads the last bar of an empty list.
\<close>

theorem prediction_banner_empty_bars:
  "predictionBanner [] (Some (noOverlays \<lparr> prediction_target := Some 150 \<rparr>)) (\<lambda>k. True)
     = Inl TypeError"
  by (simp add: predictionBanner_def noOverlays_def)

lemma chartEffect_empty_bars:
  "chartEffect N priceContainer macdContainer [] overlays active refs = refs \<lparr> cleanupSet := False \<rparr>"
  by (simp add: chartEffect_def)

section \<open>Properties of the Refresh Scheduler\<close>

lemma tracked_initial: "tracked {} initialHome"
  by (simp add: tracked_def initialHome_def)

lemma tracked_mono: "tracked T s \<Longrightarrow> T \<subseteq> T' \<Longrightarrow> tracked T' s"
  by (auto simp: tracked_def)

lemma tracked_silentRefresh: "tracked T s \<Longrightarrow> tracked T (silentRefresh s)"
  by (auto simp: tracked_def silentRefresh_def Let_def)

lemma tracked_settle: "tracked T s \<Longrightarrow> tracked T (settle f outcome now (s \<lparr> inFlight := fs \<rparr>))"
  by (auto simp: tracked_def settle_def split: FetchKind.splits Outcome.splits)

lemma tracked_handleSearch:
  "tracked T s \<Longrightarrow> tracked (insert ticker T) (handleSearch ticker period interval s)"
  by (auto simp: tracked_def handleSearch_def timerEffect_def Let_def)

lemma tracked_step: "tracked T s \<Longrightarrow> tracked (T \<union> set (searchedTickers [e])) (step e s)"
proof (cases e)
  case (Search ticker period interval)
  assume "tracked T s"
  then show ?thesis using Search tracked_handleSearch [of T s ticker period interval] by simp
next
  case ClickRefresh
  assume "tracked T s"
  then show ?thesis using ClickRefresh by (simp add: tracked_silentRefresh)
next
  case ToggleAutoRefresh
  assume "tracked T s"
  then show ?thesis using ToggleAutoRefresh by (auto simp: tracked_def timerEffect_def)
next
  case TimerTick
  assume "tracked T s"
  then show ?thesis using TimerTick by (simp add: tracked_silentRefresh)
next
  case (Settle i outcome now)
  assume "tracked T s"
  then show ?thesis using Settle by (simp add: tracked_settle)
qed

lemma searchedTickers_Cons:
  "set (searchedTickers (e # es)) = set (searchedTickers [e]) \<union> set (searchedTickers es)"
  by (cases e) simp_all

lemma tracked_run: "tracked T s \<Longrightarrow> tracked (T \<union> set (searchedTickers evs)) (run evs s)"
proof (induction evs arbitrary: T s)
  case Nil
  then show ?case by simp
next
  case (Cons e es)
  have "tracked (T \<union> set (searchedTickers [e])) (step e s)"
    using Cons.prems by (rule tracked_step)
  then have "tracked (T \<union> set (searchedTickers [e]) \<union> set (searchedTickers es)) (run es (step e s))"
    by (rule Cons.IH)
  then show ?case using searchedTickers_Cons [of e es] by (simp add: Un_assoc)
qed

text \<open>
  C6 (as amended). In every run of the page from its initial state, the interval is armed
  exactly when auto-refresh is on and a ticker is active, and every refresh call is for a
  ticker that a search has made active. Before the first search no ticker is active:
  toggling auto-refresh arms nothing and no call is made at all. Whether a call for the
  ticker has succeeded plays no part.
\<close>

theorem refresh_only_after_search:
  "refreshTimer (run evs initialHome)
     = (autoRefresh (run evs initialHome) \<and> currentTicker (run evs initialHome) \<noteq> [])
   \<and> (\<forall>f\<in>set (issued (run evs initialHome)). f_kind f = RefreshFetch \<longrightarrow>
         p_ticker (f_params f) \<noteq> [] \<and> p_ticker (f_params f) \<in> set (searchedTickers evs))
   \<and> (searchedTickers evs = [] \<longrightarrow>
         currentTicker (run evs initialHome) = [] \<and> \<not> refreshTimer (run evs initialHome)
         \<and> issued (run evs initialHome) = [])"
proof -
  have t: "tracked (set (searchedTickers evs)) (run evs initialHome)"
    using tracked_run [OF tracked_initial, of evs] by simp
  have a: "refreshTimer (run evs initialHome)
     = (autoRefresh (run evs initialHome) \<and> currentTicker (run evs initialHome) \<noteq> [])"
    using t by (simp add: tracked_def)
  have b: "\<forall>f\<in>set (issued (run evs initialHome)). f_kind f = RefreshFetch \<longrightarrow>
         p_ticker (f_params f) \<noteq> [] \<and> p_ticker (f_params f) \<in> set (searchedTickers evs)"
    using t by (simp add: tracked_def)
  have c: "currentTicker (run evs initialHome) = [] \<and> \<not> refreshTimer (run evs initialHome)
         \<and> issued (run evs initialHome) = []" if none: "searchedTickers evs = []"
  proof -
    have quiet: "searchedTickers es = [] \<Longrightarrow> currentTicker s = [] \<Longrightarrow> \<not> refreshTimer s
        \<Longrightarrow> p_ticker (latestParamsRef s) = [] \<Longrightarrow> issued s = []
        \<Longrightarrow> currentTicker (run es s) = [] \<and> \<not> refreshTimer (run es s) \<and> issued (run es s) = []"
      for es s
    proof (induction es arbitrary: s)
      case Nil
      then show ?case by simp
    next
      case (Cons e es)
      have e: "\<forall>t p i. e \<noteq> Search t p i" using Cons.prems(1) by (cases e) auto
      have es: "searchedTickers es = []" using Cons.prems(1) by (cases e) auto
      have st: "currentTicker (step e s) = [] \<and> \<not> refreshTimer (step e s)
          \<and> p_ticker (latestParamsRef (step e s)) = [] \<and> issued (step e s) = []"
        using e Cons.prems(2-5)
        by (cases e) (auto simp: silentRefresh_def settle_def split: FetchKind.splits Outcome.splits)
      show ?case using Cons.IH [OF es, of "step e s"] st by simp
    qed
    show ?thesis using quiet [OF none, of initialHome] by (simp add: initialHome_def)
  qed
  show ?thesis using a b c by blast
qed


lemmas page_defs =
  initialHome_def handleSearch_def timerEffect_def silentRefresh_def settle_def removeAt_def Let_def

theorem refresh_only_after_search_witness:
  "searchedTickers [ToggleAutoRefresh, TimerTick, ClickRefresh, ToggleAutoRefresh, TimerTick] = []
   \<and> issued (run [ToggleAutoRefresh, TimerTick, ClickRefresh, ToggleAutoRefresh, TimerTick] initialHome) = []
   \<and> \<not> refreshTimer (run [ToggleAutoRefresh, TimerTick, ClickRefresh, ToggleAutoRefresh, TimerTick] initialHome)
   \<and> issued (run [Search ''AAPL'' ''2y'' ''1d'', TimerTick] initialHome)
       = [\<lparr> f_kind = SearchFetch,
            f_params = \<lparr> p_ticker = ''AAPL'', p_period = ''2y'', p_interval = ''1d'' \<rparr> \<rparr>,
          \<lparr> f_kind = RefreshFetch,
            f_params = \<lparr> p_ticker = ''AAPL'', p_period = ''2y'', p_interval = ''1d'' \<rparr> \<rparr>]"
  using refresh_only_after_search
          [of "[ToggleAutoRefresh, TimerTick, ClickRefresh, ToggleAutoRefresh, TimerTick]"]
        refresh_only_after_search [of "[Search ''AAPL'' ''2y'' ''1d'', TimerTick]"]
  by (simp add: page_defs)

text \<open>
  A search for AAPL fails, so no call for AAPL has ever succeeded. Auto-refresh is
  switched off and on again: the interval is armed, and the next tick calls
  \<open>analyzeStock\<close> for AAPL.
\<close>

theorem refresh_without_successful_fetch_counterexample:
  "analysis (run [Search ''AAPL'' ''2y'' ''1d'', Settle 0 (Rejected (ErrorObject ''Not found'')) 5,
                  ToggleAutoRefresh, ToggleAutoRefresh] initialHome) = None
   \<and> lastRefreshed (run [Search ''AAPL'' ''2y'' ''1d'', Settle 0 (Rejected (ErrorObject ''Not found'')) 5,
                  ToggleAutoRefresh, ToggleAutoRefresh] initialHome) = None
   \<and> refreshTimer (run [Search ''AAPL'' ''2y'' ''1d'', Settle 0 (Rejected (ErrorObject ''Not found'')) 5,
                  ToggleAutoRefresh, ToggleAutoRefresh] initialHome)
   \<and> issued (run [Search ''AAPL'' ''2y'' ''1d'', Settle 0 (Rejected (ErrorObject ''Not found'')) 5,
                  ToggleAutoRefresh, ToggleAutoRefresh, TimerTick] initialHome)
       = [\<lparr> f_kind = SearchFetch,
            f_params = \<lparr> p_ticker = ''AAPL'', p_period = ''2y'', p_interval = ''1d'' \<rparr> \<rparr>,
          \<lparr> f_kind = RefreshFetch,
            f_params = \<lparr> p_ticker = ''AAPL'', p_period = ''2y'', p_interval = ''1d'' \<rparr> \<rparr>]"
  by (simp add: page_defs)

lemma step_settle_rejected_refresh:
  assumes "i < length (inFlight s)" and "f_kind (inFlight s ! i) = RefreshFetch"
  shows "step (Settle i (Rejected m) now) s
           = s \<lparr> inFlight := removeAt i (inFlight s), isRefreshing := False \<rparr>"
  using assms by (simp add: settle_def)

text \<open>
  C4. When a call made by \<open>silentRefresh\<close> is rejected, the page state changes only in
  \<open>isRefreshing\<close>, which is reset (and the call leaves the calls in flight): the analysis,
  \<open>lastRefreshed\<close> and \<open>error\<close> are as before. The same holds for the refresh as a whole,
  from its start to its rejection.
\<close>

theorem failed_refresh_keeps_data:
  assumes "i < length (inFlight s)" and "f_kind (inFlight s ! i) = RefreshFetch"
  shows "step (Settle i (Rejected m) now) s
           = s \<lparr> inFlight := removeAt i (inFlight s), isRefreshing := False \<rparr>
    \<and> analysis (step (Settle i (Rejected m) now) s) = analysis s
    \<and> lastRefreshed (step (Settle i (Rejected m) now) s) = lastRefreshed s
    \<and> error (step (Settle i (Rejected m) now) s) = error s
    \<and> \<not> isRefreshing (step (Settle i (Rejected m) now) s)
    \<and> (p_ticker (latestParamsRef s) \<noteq> [] \<longrightarrow>
         analysis (step (Settle (length (inFlight s)) (Rejected m) now) (silentRefresh s)) = analysis s
       \<and> lastRefreshed (step (Settle (length (inFlight s)) (Rejected m) now) (silentRefresh s))
           = lastRefreshed s
       \<and> error (step (Settle (length (inFlight s)) (Rejected m) now) (silentRefresh s)) = error s
       \<and> \<not> isRefreshing (step (Settle (length (inFlight s)) (Rejected m) now) (silentRefresh s)))"
proof -
  have a: "step (Settle i (Rejected m) now) s
           = s \<lparr> inFlight := removeAt i (inFlight s), isRefreshing := False \<rparr>"
    using assms by (rule step_settle_rejected_refresh)
  have b: "analysis (step (Settle (length (inFlight s)) (Rejected m) now) (silentRefresh s)) = analysis s
       \<and> lastRefreshed (step (Settle (length (inFlight s)) (Rejected m) now) (silentRefresh s))
           = lastRefreshed s
       \<and> error (step (Settle (length (inFlight s)) (Rejected m) now) (silentRefresh s)) = error s
       \<and> \<not> isRefreshing (step (Settle (length (inFlight s)) (Rejected m) now) (silentRefresh s))"
    if "p_ticker (latestParamsRef s) \<noteq> []"
    using that by (simp add: silentRefresh_def settle_def Let_def)
  show ?thesis unfolding a using b by (simp del: step.simps)
qed

theorem failed_refresh_keeps_data_witness:
  "0 < length (inFlight (run [Search ''AAPL'' ''2y'' ''1d'',
                              Settle 0 (Resolved (analysisOf ''AAPL'' [flatBar ''2024-01-02'' 100])) 7,
                              TimerTick] initialHome))
   \<and> f_kind (inFlight (run [Search ''AAPL'' ''2y'' ''1d'',
                              Settle 0 (Resolved (analysisOf ''AAPL'' [flatBar ''2024-01-02'' 100])) 7,
                              TimerTick] initialHome) ! 0) = RefreshFetch
   \<and> analysis (step (Settle 0 (Rejected (ErrorObject ''timeout'')) 9)
                 (run [Search ''AAPL'' ''2y'' ''1d'',
                       Settle 0 (Resolved (analysisOf ''AAPL'' [flatBar ''2024-01-02'' 100])) 7,
                       TimerTick] initialHome))
       = Some (analysisOf ''AAPL'' [flatBar ''2024-01-02'' 100])
   \<and> lastRefreshed (step (Settle 0 (Rejected (ErrorObject ''timeout'')) 9)
                 (run [Search ''AAPL'' ''2y'' ''1d'',
                       Settle 0 (Resolved (analysisOf ''AAPL'' [flatBar ''2024-01-02'' 100])) 7,
                       TimerTick] initialHome)) = Some 7
   \<and> error (step (Settle 0 (Rejected (ErrorObject ''timeout'')) 9)
                 (run [Search ''AAPL'' ''2y'' ''1d'',
                       Settle 0 (Resolved (analysisOf ''AAPL'' [flatBar ''2024-01-02'' 100])) 7,
                       TimerTick] initialHome)) = None
   \<and> \<not> isRefreshing (step (Settle 0 (Rejected (ErrorObject ''timeout'')) 9)
                 (run [Search ''AAPL'' ''2y'' ''1d'',
                       Settle 0 (Resolved (analysisOf ''AAPL'' [flatBar ''2024-01-02'' 100])) 7,
                       TimerTick] initialHome))"
proof -
  let ?s = "run [Search ''AAPL'' ''2y'' ''1d'',
                 Settle 0 (Resolved (analysisOf ''AAPL'' [flatBar ''2024-01-02'' 100])) 7,
                 TimerTick] initialHome"
  have h1: "0 < length (inFlight ?s)" by (simp add: page_defs)
  have h2: "f_kind (inFlight ?s ! 0) = RefreshFetch" by (simp add: page_defs)
  have v: "analysis ?s = Some (analysisOf ''AAPL'' [flatBar ''2024-01-02'' 100])"
    "lastRefreshed ?s = Some 7" "error ?s = None"
    by (simp_all add: page_defs)
  show ?thesis
    using failed_refresh_keeps_data [OF h1 h2, of "ErrorObject ''timeout''" 9] h1 h2 v
    by (simp del: step.simps run.simps)
qed


lemma removeAt_keeps:
  assumes "x \<in> set xs" and "i < length xs" and "x \<noteq> xs ! i"
  shows "x \<in> set (removeAt i xs)"
proof -
  have "xs = take i xs @ xs ! i # drop (Suc i) xs"
    using assms(2) by (rule id_take_nth_drop)
  then have e: "take i xs @ xs ! i # drop (Suc i) xs = xs" by simp
  have "x \<in> set (take i xs @ xs ! i # drop (Suc i) xs)"
    by (subst e) (rule assms(1))
  then show ?thesis using assms(3) by (auto simp: removeAt_def)
qed

lemma flagBacked_initial: "flagBacked initialHome"
  by (simp add: flagBacked_def initialHome_def)

lemma flagBacked_silentRefresh: "flagBacked s \<Longrightarrow> flagBacked (silentRefresh s)"
  by (auto simp: flagBacked_def silentRefresh_def Let_def)

lemma flagBacked_settle:
  assumes "flagBacked s" and "i < length (inFlight s)"
  shows "flagBacked (settle (inFlight s ! i) outcome now (s \<lparr> inFlight := removeAt i (inFlight s) \<rparr>))"
proof (cases "f_kind (inFlight s ! i)")
  case RefreshFetch
  then show ?thesis by (simp add: flagBacked_def settle_def split: Outcome.splits)
next
  case SearchFetch
  have keep: "\<exists>f\<in>set (removeAt i (inFlight s)). f_kind f = RefreshFetch" if r: "isRefreshing s"
  proof -
    obtain f where f: "f \<in> set (inFlight s)" "f_kind f = RefreshFetch"
      using assms(1) r by (auto simp: flagBacked_def)
    then have "f \<noteq> inFlight s ! i" using SearchFetch by auto
    then have "f \<in> set (removeAt i (inFlight s))"
      using f(1) assms(2) by (intro removeAt_keeps)
    then show ?thesis using f(2) by blast
  qed
  show ?thesis using SearchFetch keep
    by (auto simp: flagBacked_def settle_def split: Outcome.splits)
qed

lemma flagBacked_step: "flagBacked s \<Longrightarrow> flagBacked (step e s)"
proof (cases e)
  case (Search ticker period interval)
  assume "flagBacked s"
  then show ?thesis using Search
    by (auto simp: flagBacked_def handleSearch_def timerEffect_def Let_def)
next
  case ClickRefresh
  assume "flagBacked s"
  then show ?thesis using ClickRefresh by (simp add: flagBacked_silentRefresh)
next
  case ToggleAutoRefresh
  assume "flagBacked s"
  then show ?thesis using ToggleAutoRefresh by (auto simp: flagBacked_def timerEffect_def)
next
  case TimerTick
  assume "flagBacked s"
  then show ?thesis using TimerTick by (simp add: flagBacked_silentRefresh)
next
  case (Settle i outcome now)
  assume "flagBacked s"
  then show ?thesis using Settle flagBacked_settle [of s i outcome now] by simp
qed

lemma flagBacked_run: "flagBacked s \<Longrightarrow> flagBacked (run evs s)"
  by (induction evs arbitrary: s) (simp_all add: flagBacked_step)

text \<open>
  C2 (as amended). A click on the refresh button while \<open>isRefreshing\<close> is set changes
  nothing and makes no call. A click with the flag clear and a tick of the armed interval
  both run \<open>silentRefresh\<close>, which sets the one flag \<open>isRefreshing\<close> and makes one call;
  the tick runs it whether the flag is set or not. The settling of any refresh call
  resets the flag. In every run, a set flag means that a refresh call is in flight.
\<close>

theorem manual_refresh_blocked_while_refreshing:
  "(isRefreshing s \<longrightarrow> step ClickRefresh s = s)
   \<and> (\<not> isRefreshing s \<and> currentTicker s \<noteq> [] \<longrightarrow> step ClickRefresh s = silentRefresh s)
   \<and> (refreshTimer s \<longrightarrow> step TimerTick s = silentRefresh s)
   \<and> (p_ticker (latestParamsRef s) \<noteq> [] \<longrightarrow>
         isRefreshing (silentRefresh s)
       \<and> inFlight (silentRefresh s)
           = inFlight s @ [\<lparr> f_kind = RefreshFetch, f_params = latestParamsRef s \<rparr>])
   \<and> (i < length (inFlight s) \<and> f_kind (inFlight s ! i) = RefreshFetch \<longrightarrow>
         \<not> isRefreshing (step (Settle i outcome now) s))
   \<and> (isRefreshing (run evs initialHome) \<longrightarrow>
         (\<exists>f\<in>set (inFlight (run evs initialHome)). f_kind f = RefreshFetch))"
proof -
  have a: "isRefreshing s \<longrightarrow> step ClickRefresh s = s" by simp
  have b: "\<not> isRefreshing s \<and> currentTicker s \<noteq> [] \<longrightarrow> step ClickRefresh s = silentRefresh s"
    by simp
  have c: "refreshTimer s \<longrightarrow> step TimerTick s = silentRefresh s" by simp
  have d: "p_ticker (latestParamsRef s) \<noteq> [] \<longrightarrow>
         isRefreshing (silentRefresh s)
       \<and> inFlight (silentRefresh s)
           = inFlight s @ [\<lparr> f_kind = RefreshFetch, f_params = latestParamsRef s \<rparr>]"
    by (simp add: silentRefresh_def Let_def)
  have e: "i < length (inFlight s) \<and> f_kind (inFlight s ! i) = RefreshFetch \<longrightarrow>
         \<not> isRefreshing (step (Settle i outcome now) s)"
    by (simp add: settle_def split: Outcome.splits)
  have f: "isRefreshing (run evs initialHome) \<longrightarrow>
         (\<exists>f\<in>set (inFlight (run evs initialHome)). f_kind f = RefreshFetch)"
    using flagBacked_run [OF flagBacked_initial, of evs] by (simp add: flagBacked_def)
  show ?thesis by (intro conjI a b c d e f)
qed

theorem manual_refresh_blocked_while_refreshing_witness:
  "isRefreshing (run [Search ''AAPL'' ''2y'' ''1d'',
                      Settle 0 (Resolved (analysisOf ''AAPL'' [flatBar ''2024-01-02'' 100])) 7,
                      ClickRefresh] initialHome)
   \<and> step ClickRefresh (run [Search ''AAPL'' ''2y'' ''1d'',
                      Settle 0 (Resolved (analysisOf ''AAPL'' [flatBar ''2024-01-02'' 100])) 7,
                      ClickRefresh] initialHome)
       = run [Search ''AAPL'' ''2y'' ''1d'',
              Settle 0 (Resolved (analysisOf ''AAPL'' [flatBar ''2024-01-02'' 100])) 7,
              ClickRefresh] initialHome
   \<and> refreshesInFlight ''AAPL'' (step ClickRefresh (run [Search ''AAPL'' ''2y'' ''1d'',
                      Settle 0 (Resolved (analysisOf ''AAPL'' [flatBar ''2024-01-02'' 100])) 7,
                      ClickRefresh] initialHome)) = 1"
proof -
  let ?s = "run [Search ''AAPL'' ''2y'' ''1d'',
                 Settle 0 (Resolved (analysisOf ''AAPL'' [flatBar ''2024-01-02'' 100])) 7,
                 ClickRefresh] initialHome"
  have h: "isRefreshing ?s" by (simp add: page_defs)
  have n: "refreshesInFlight ''AAPL'' ?s = 1" by (simp add: page_defs refreshesInFlight_def)
  have same: "step ClickRefresh ?s = ?s"
    using manual_refresh_blocked_while_refreshing [of ?s] h by blast
  show ?thesis using h n same by (simp del: step.simps run.simps)
qed

text \<open>
  A click starts a refresh for AAPL; before it settles the interval fires. The tick is
  not skipped: two refresh calls for the active ticker are in flight.
\<close>

theorem timer_tick_overlaps_refresh_counterexample:
  "isRefreshing (run [Search ''AAPL'' ''2y'' ''1d'',
                      Settle 0 (Resolved (analysisOf ''AAPL'' [flatBar ''2024-01-02'' 100])) 7,
                      ClickRefresh] initialHome)
   \<and> refreshesInFlight ''AAPL'' (run [Search ''AAPL'' ''2y'' ''1d'',
                      Settle 0 (Resolved (analysisOf ''AAPL'' [flatBar ''2024-01-02'' 100])) 7,
                      ClickRefresh] initialHome) = 1
   \<and> currentTicker (run [Search ''AAPL'' ''2y'' ''1d'',
                      Settle 0 (Resolved (analysisOf ''AAPL'' [flatBar ''2024-01-02'' 100])) 7,
                      ClickRefresh, TimerTick] initialHome) = ''AAPL''
   \<and> refreshesInFlight ''AAPL'' (run [Search ''AAPL'' ''2y'' ''1d'',
                      Settle 0 (Resolved (analysisOf ''AAPL'' [flatBar ''2024-01-02'' 100])) 7,
                      ClickRefresh, TimerTick] initialHome) = 2"
  by (simp add: page_defs refreshesInFlight_def)

text \<open>
  C3 (as amended). When a call resolves, its payload becomes the analysis and
  \<open>lastRefreshed\<close> is set, whatever the active ticker is; the ticker of the call is not
  compared with it. When a call is rejected, a search clears the analysis and sets the
  error, and a refresh changes neither.
\<close>

theorem settled_result_applied_unconditionally:
  assumes "i < length (inFlight s)"
  shows "analysis (step (Settle i (Resolved d) now) s) = Some d
    \<and> lastRefreshed (step (Settle i (Resolved d) now) s) = Some now
    \<and> currentTicker (step (Settle i (Resolved d) now) s) = currentTicker s
    \<and> (f_kind (inFlight s ! i) = SearchFetch \<longrightarrow>
          analysis (step (Settle i (Rejected m) now) s) = None
        \<and> error (step (Settle i (Rejected m) now) s) = Some (errorMessage m)
        \<and> lastRefreshed (step (Settle i (Rejected m) now) s) = lastRefreshed s)
    \<and> (f_kind (inFlight s ! i) = RefreshFetch \<longrightarrow>
          analysis (step (Settle i (Rejected m) now) s) = analysis s
        \<and> error (step (Settle i (Rejected m) now) s) = error s
        \<and> lastRefreshed (step (Settle i (Rejected m) now) s) = lastRefreshed s)"
  using assms by (simp add: settle_def split: FetchKind.splits)

theorem settled_result_applied_unconditionally_witness:
  "0 < length (inFlight (run [Search ''AAPL'' ''2y'' ''1d'', Search ''TSLA'' ''2y'' ''1d''] initialHome))
   \<and> p_ticker (f_params (inFlight (run [Search ''AAPL'' ''2y'' ''1d'', Search ''TSLA'' ''2y'' ''1d'']
                                      initialHome) ! 0)) = ''AAPL''
   \<and> currentTicker (step (Settle 0 (Resolved (analysisOf ''AAPL'' [flatBar ''2024-01-02'' 100])) 3)
        (run [Search ''AAPL'' ''2y'' ''1d'', Search ''TSLA'' ''2y'' ''1d''] initialHome)) = ''TSLA''
   \<and> analysis (step (Settle 0 (Resolved (analysisOf ''AAPL'' [flatBar ''2024-01-02'' 100])) 3)
        (run [Search ''AAPL'' ''2y'' ''1d'', Search ''TSLA'' ''2y'' ''1d''] initialHome))
       = Some (analysisOf ''AAPL'' [flatBar ''2024-01-02'' 100])"
proof -
  let ?s = "run [Search ''AAPL'' ''2y'' ''1d'', Search ''TSLA'' ''2y'' ''1d''] initialHome"
  have h: "0 < length (inFlight ?s)" by (simp add: page_defs)
  have v: "p_ticker (f_params (inFlight ?s ! 0)) = ''AAPL''" "currentTicker ?s = ''TSLA''"
    by (simp_all add: page_defs)
  show ?thesis
    using settled_result_applied_unconditionally
            [OF h, of "analysisOf ''AAPL'' [flatBar ''2024-01-02'' 100]" 3] h v
    by (simp del: step.simps run.simps)
qed

text \<open>
  AAPL is searched, then TSLA before the first call settles. The TSLA call resolves, then
  the AAPL call: the page shows the AAPL payload while the active ticker is TSLA.
\<close>

theorem stale_result_applied_counterexample:
  "currentTicker (run [Search ''AAPL'' ''2y'' ''1d'', Search ''TSLA'' ''2y'' ''1d'',
                       Settle 1 (Resolved (analysisOf ''TSLA'' [flatBar ''2024-01-02'' 250])) 3,
                       Settle 0 (Resolved (analysisOf ''AAPL'' [flatBar ''2024-01-02'' 100])) 4]
                    initialHome) = ''TSLA''
   \<and> analysis (run [Search ''AAPL'' ''2y'' ''1d'', Search ''TSLA'' ''2y'' ''1d'',
                    Settle 1 (Resolved (analysisOf ''TSLA'' [flatBar ''2024-01-02'' 250])) 3,
                    Settle 0 (Resolved (analysisOf ''AAPL'' [flatBar ''2024-01-02'' 100])) 4]
                 initialHome) = Some (analysisOf ''AAPL'' [flatBar ''2024-01-02'' 100])
   \<and> p_ticker (f_params (inFlight (run [Search ''AAPL'' ''2y'' ''1d'', Search ''TSLA'' ''2y'' ''1d'',
                    Settle 1 (Resolved (analysisOf ''TSLA'' [flatBar ''2024-01-02'' 250])) 3]
                 initialHome) ! 0)) = ''AAPL''"
  by (simp add: page_defs)

end
